theory Spec2Isabelle
  imports Complex_Main
begin

section \<open>The ridge-regression estimator of \<^verbatim>\<open>ridge_regression_scratch.ipynb\<close>\<close>

text \<open>
  The class \<^verbatim>\<open>RidgeRegression\<close> of the notebook is embedded with its three fields as a
  record, its methods as functions that take the estimator and return what the method
  returns (and, where the method assigns to a field, the estimator afterwards), and every
  exception the body can raise as a value of \<open>error\<close>.

  A one-dimensional array is a list, a two-dimensional array is the list of its rows; an
  array with at least one row and one column is a list of \<open>n \<ge> 1\<close> rows of the same length
  \<open>p \<ge> 1\<close>, and the statements below that depend on a shape carry this as a hypothesis.
  An entry, a floating-point number in the program, is a real number here.

  The program computes in IEEE double precision, and what it computes (which pivot is
  zero, which sum underflows) is not what exact arithmetic gives. The embedding is used
  in two ways that do not depend on that difference. The body of \<^verbatim>\<open>fit\<close> is embedded with
  exact linear algebra, and what is proved of it is the order of its steps, the exceptions
  they can raise, the shapes, and the fields and arrays written: none of these statements
  says for which input the inversion succeeds or what the weights are. The values
  computed by \<^verbatim>\<open>predict\<close> and \<^verbatim>\<open>score\<close> do enter the statements about them, so their
  arithmetic is a parameter \<open>ar\<close>, and those statements hold for every choice of it.
\<close>

subsection \<open>Exceptions\<close>

text \<open>
  The exceptions the methods can raise, under their Python names. The error kinds of the
  specification name the same failures: \<open>SingularMatrix\<close> is \<open>LinAlgError\<close> (raised by
  \<^verbatim>\<open>np.linalg.inv\<close>), \<open>DimensionMismatch\<close> is \<open>ValueError\<close> (raised by \<^verbatim>\<open>@\<close>,
  \<^verbatim>\<open>.dot\<close> and \<^verbatim>\<open>r2_score\<close> on operands whose shapes do not fit), \<open>NotFitted\<close> is
  \<open>TypeError\<close> (raised by arithmetic on the \<^verbatim>\<open>None\<close> that the fields hold before
  \<^verbatim>\<open>fit\<close>). The class defines no exception of its own and contains no \<^verbatim>\<open>raise\<close>.
\<close>

datatype error = LinAlgError | ValueError | TypeError | IndexError

subsection \<open>Arrays\<close>

type_synonym vector = "real list"
type_synonym matrix = "real list list"

definition nrows :: "matrix \<Rightarrow> nat" where
  "nrows A = length A"

definition ncols :: "matrix \<Rightarrow> nat" where
  "ncols A = (case A of [] \<Rightarrow> 0 | r # _ \<Rightarrow> length r)"

definition is_mat :: "nat \<Rightarrow> nat \<Rightarrow> matrix \<Rightarrow> bool" where
  "is_mat n m A \<longleftrightarrow> length A = n \<and> (\<forall>r \<in> set A. length r = m)"

text \<open>\<^verbatim>\<open>np.ones((n, m))\<close>, \<^verbatim>\<open>np.hstack([A, B])\<close>, \<^verbatim>\<open>np.identity(n)\<close>, \<^verbatim>\<open>A[i, j] = v\<close>
  and \<^verbatim>\<open>A.T\<close>.\<close>

definition ones :: "nat \<Rightarrow> nat \<Rightarrow> matrix" where
  "ones n m = replicate n (replicate m 1)"

definition hstack :: "matrix \<Rightarrow> matrix \<Rightarrow> matrix" where
  "hstack A B = map2 (@) A B"

definition identity :: "nat \<Rightarrow> matrix" where
  "identity n = map (\<lambda>i. map (\<lambda>j. if i = j then 1 else 0) [0..<n]) [0..<n]"

definition set_item :: "matrix \<Rightarrow> nat \<Rightarrow> nat \<Rightarrow> real \<Rightarrow> matrix" where
  "set_item A i j v = A[i := (A ! i)[j := v]]"

definition transpose_m :: "matrix \<Rightarrow> matrix" where
  "transpose_m A = map (\<lambda>j. map (\<lambda>r. r ! j) A) [0..<ncols A]"

text \<open>Sum of products, scalar times matrix, matrix plus matrix.\<close>

definition dot :: "vector \<Rightarrow> vector \<Rightarrow> real" where
  "dot x y = sum_list (map2 (*) x y)"

definition scal_mat :: "real \<Rightarrow> matrix \<Rightarrow> matrix" where
  "scal_mat c A = map (map ((*) c)) A"

definition mat_add :: "matrix \<Rightarrow> matrix \<Rightarrow> matrix" where
  "mat_add A B = map2 (map2 (+)) A B"

definition mat_vec :: "matrix \<Rightarrow> vector \<Rightarrow> vector" where
  "mat_vec A v = map (\<lambda>r. dot r v) A"

definition mat_mul :: "matrix \<Rightarrow> matrix \<Rightarrow> matrix" where
  "mat_mul A B = map (\<lambda>r. map (dot r) (transpose_m B)) A"

text \<open>The operator \<^verbatim>\<open>@\<close> (and \<^verbatim>\<open>.dot\<close>) on a matrix and a matrix, and on a matrix and a
  vector: a \<^verbatim>\<open>ValueError\<close> when the inner dimensions differ.\<close>

definition matmul :: "matrix \<Rightarrow> matrix \<Rightarrow> error + matrix" where
  "matmul A B = (if ncols A \<noteq> nrows B then Inl ValueError else Inr (mat_mul A B))"

definition matmul_vec :: "matrix \<Rightarrow> vector \<Rightarrow> error + vector" where
  "matmul_vec A v = (if ncols A \<noteq> length v then Inl ValueError else Inr (mat_vec A v))"

subsection \<open>\<^verbatim>\<open>np.linalg.inv\<close>\<close>

text \<open>
  \<^verbatim>\<open>np.linalg.inv(A)\<close> returns the inverse of a square matrix and raises
  \<^verbatim>\<open>LinAlgError\<close> when the matrix is not square or is singular. It is modelled by
  Gauss-Jordan elimination on the augmented matrix \<open>[A | I]\<close> in exact arithmetic: for every
  column \<open>k\<close> the first row at or below \<open>k\<close> with a non-zero entry in column \<open>k\<close> is swapped
  into place and scaled, and the column is cleared in all other rows; when no such row
  exists the matrix is singular. The library works in double precision and raises only
  when a pivot is exactly zero after rounding, so the inputs on which the call raises, and
  the entries it returns, differ from those of this function; the shape of the result
  and the kind of exception do not.
\<close>

definition axpy :: "real \<Rightarrow> vector \<Rightarrow> vector \<Rightarrow> vector" where
  "axpy c x y = map2 (\<lambda>a b. c * a + b) x y"

definition find_pivot :: "nat \<Rightarrow> matrix \<Rightarrow> nat option" where
  "find_pivot k A = List.find (\<lambda>i. A ! i ! k \<noteq> 0) [k..<length A]"

definition gj_step :: "nat \<Rightarrow> matrix \<Rightarrow> matrix option" where
  "gj_step k A =
     (case find_pivot k A of
        None \<Rightarrow> None
      | Some p \<Rightarrow>
          let A1 = A[k := A ! p, p := A ! k];
              rk = map (\<lambda>x. x / (A1 ! k ! k)) (A1 ! k)
          in Some (map (\<lambda>i. if i = k then rk else axpy (- (A1 ! i ! k)) rk (A1 ! i))
                    [0..<length A]))"

fun gauss_jordan :: "nat \<Rightarrow> nat \<Rightarrow> matrix \<Rightarrow> matrix option" where
  "gauss_jordan 0 k A = Some A"
| "gauss_jordan (Suc d) k A =
     (case gj_step k A of None \<Rightarrow> None | Some A' \<Rightarrow> gauss_jordan d (Suc k) A')"

definition linalg_inv :: "matrix \<Rightarrow> error + matrix" where
  "linalg_inv A =
     (let n = length A in
      if \<not> is_mat n n A then Inl LinAlgError
      else case gauss_jordan n 0 (hstack A (identity n)) of
             None \<Rightarrow> Inl LinAlgError
           | Some R \<Rightarrow> Inr (map (drop n) R))"

subsection \<open>The estimator\<close>

text \<open>
  \<^verbatim>\<open>__init__\<close> stores \<^verbatim>\<open>alpha\<close> and sets \<^verbatim>\<open>coef_\<close> and \<^verbatim>\<open>intercept_\<close> to
  \<^verbatim>\<open>None\<close>; the default of \<^verbatim>\<open>alpha\<close> is \<open>1.0\<close>.
\<close>

record estimator =
  alpha :: real
  coef :: "vector option"
  intercept :: "real option"

definition init :: "real \<Rightarrow> estimator" where
  "init a = \<lparr>alpha = a, coef = None, intercept = None\<rparr>"

text \<open>
  The body of \<^verbatim>\<open>fit\<close> up to the weight vector:
  \<^verbatim>\<open>
    X_ = X.copy()
    X_ = np.hstack([np.ones((X_.shape[0], 1)), X_])
    I = np.identity(X_.shape[1])
    I[0, 0] = 0
    w = np.linalg.inv(X_.T @ X_ + self.alpha * I) @ X_.T @ y
  \<close>
  The last line evaluates \<^verbatim>\<open>X_.T @ X_\<close>, the sum, the inverse, the product of the
  inverse with \<^verbatim>\<open>X_.T\<close>, and then the product with \<^verbatim>\<open>y\<close>, in this order;
  \<open>solve_weights\<close> is that line.
\<close>

definition augment :: "matrix \<Rightarrow> matrix" where
  "augment X = hstack (ones (nrows X) 1) X"

definition solve_weights :: "real \<Rightarrow> matrix \<Rightarrow> matrix \<Rightarrow> vector \<Rightarrow> error + vector" where
  "solve_weights a Xa I y =
     (case matmul (transpose_m Xa) Xa of
        Inl e \<Rightarrow> Inl e
      | Inr G \<Rightarrow>
          (case linalg_inv (mat_add G (scal_mat a I)) of
             Inl e \<Rightarrow> Inl e
           | Inr B \<Rightarrow>
               (case matmul B (transpose_m Xa) of
                  Inl e \<Rightarrow> Inl e
                | Inr C \<Rightarrow> matmul_vec C y)))"

definition fit_weights :: "real \<Rightarrow> matrix \<Rightarrow> vector \<Rightarrow> error + vector" where
  "fit_weights a X y =
     (let Xa = augment X;
          I = set_item (identity (ncols Xa)) 0 0 0
      in solve_weights a Xa I y)"

text \<open>
  \<^verbatim>\<open>fit\<close> then assigns \<^verbatim>\<open>self.intercept_ = w[0]\<close> and \<^verbatim>\<open>self.coef_ = w[1:]\<close>. The
  result is the exception raised, if any, and the estimator after the call.
\<close>

definition fit :: "estimator \<Rightarrow> matrix \<Rightarrow> vector \<Rightarrow> error option \<times> estimator" where
  "fit est X y =
     (case fit_weights (alpha est) X y of
        Inl e \<Rightarrow> (Some e, est)
      | Inr w \<Rightarrow>
          (case w of
             [] \<Rightarrow> (Some IndexError, est)
           | w0 # ws \<Rightarrow> (None, est\<lparr>intercept := Some w0, coef := Some ws\<rparr>)))"

subsection \<open>The arithmetic of \<^verbatim>\<open>predict\<close> and \<^verbatim>\<open>score\<close>\<close>

text \<open>
  The floating-point functions behind \<^verbatim>\<open>predict\<close> and \<^verbatim>\<open>r2_score\<close>: the sum of
  products of a row and the coefficients, the sum of two numbers, the mean, the residual
  and the total sum of squares, and one minus a quotient (which may be NaN). \<open>exact_arith\<close>
  is the choice without rounding.
\<close>

datatype score_value = Value real | NaN

record arith =
  fl_dot :: "vector \<Rightarrow> vector \<Rightarrow> real"
  fl_add :: "real \<Rightarrow> real \<Rightarrow> real"
  fl_mean :: "vector \<Rightarrow> real"
  fl_ss_res :: "vector \<Rightarrow> vector \<Rightarrow> real"
  fl_ss_tot :: "vector \<Rightarrow> real"
  fl_r2 :: "real \<Rightarrow> real \<Rightarrow> score_value"

definition mean :: "vector \<Rightarrow> real" where
  "mean y = sum_list y / real (length y)"

definition ss_res :: "vector \<Rightarrow> vector \<Rightarrow> real" where
  "ss_res y y_pred = sum_list (map2 (\<lambda>a b. (a - b)\<^sup>2) y y_pred)"

definition ss_tot :: "vector \<Rightarrow> real" where
  "ss_tot y = sum_list (map (\<lambda>a. (a - mean y)\<^sup>2) y)"

definition exact_arith :: arith where
  "exact_arith =
     \<lparr>fl_dot = dot, fl_add = (+), fl_mean = mean, fl_ss_res = ss_res, fl_ss_tot = ss_tot,
      fl_r2 = (\<lambda>num den. Value (1 - num / den))\<rparr>"

subsection \<open>\<^verbatim>\<open>predict\<close>\<close>

text \<open>
  \<^verbatim>\<open>predict\<close> returns \<^verbatim>\<open>X.dot(self.coef_) + self.intercept_\<close>. With \<^verbatim>\<open>coef_\<close> still
  \<^verbatim>\<open>None\<close>, \<^verbatim>\<open>X.dot(None)\<close> multiplies every element of \<^verbatim>\<open>X\<close> by \<^verbatim>\<open>None\<close>, which
  raises \<^verbatim>\<open>TypeError\<close> as soon as there is an element; for an array without elements
  nothing is multiplied and the result is an array without elements, written \<open>[]\<close>. With
  \<^verbatim>\<open>coef_\<close> set, \<^verbatim>\<open>.dot\<close> raises \<^verbatim>\<open>ValueError\<close> when the number of columns differs
  from the length of \<^verbatim>\<open>coef_\<close>, and the addition of a \<^verbatim>\<open>None\<close> intercept raises
  \<^verbatim>\<open>TypeError\<close> in the same way.
\<close>

definition predict :: "arith \<Rightarrow> estimator \<Rightarrow> matrix \<Rightarrow> error + vector" where
  "predict ar est X =
     (case coef est of
        None \<Rightarrow> if concat X = [] then Inr [] else Inl TypeError
      | Some c \<Rightarrow>
          if ncols X \<noteq> length c then Inl ValueError
          else (case intercept est of
                  None \<Rightarrow> if X = [] then Inr [] else Inl TypeError
                | Some b \<Rightarrow> Inr (map (\<lambda>r. fl_add ar (fl_dot ar r c) b) X)))"

subsection \<open>\<^verbatim>\<open>r2_score\<close> and \<^verbatim>\<open>score\<close>\<close>

text \<open>
  \<^verbatim>\<open>r2_score(y_true, y_pred)\<close> is the function of \<^verbatim>\<open>sklearn.metrics\<close>. It raises
  \<^verbatim>\<open>ValueError\<close> when the two arrays differ in length or are empty and returns NaN for
  fewer than two samples. Otherwise it computes the residual sum of squares and the total
  sum of squares about the mean of \<^verbatim>\<open>y_true\<close> and returns one minus their quotient when
  both are different from zero, \<open>0.0\<close> when only the total is zero, and \<open>1.0\<close> when the
  residual sum is zero.
\<close>

definition r2_score :: "arith \<Rightarrow> vector \<Rightarrow> vector \<Rightarrow> error + score_value" where
  "r2_score ar y_true y_pred =
     (if length y_true \<noteq> length y_pred \<or> length y_pred = 0 then Inl ValueError
      else if length y_pred < 2 then Inr NaN
      else if fl_ss_res ar y_true y_pred \<noteq> 0 \<and> fl_ss_tot ar y_true \<noteq> 0
        then Inr (fl_r2 ar (fl_ss_res ar y_true y_pred) (fl_ss_tot ar y_true))
      else if fl_ss_res ar y_true y_pred \<noteq> 0 then Inr (Value 0)
      else Inr (Value 1))"

text \<open>
  \<^verbatim>\<open>score\<close> computes the predictions with the expression of \<^verbatim>\<open>predict\<close> and returns
  \<^verbatim>\<open>r2_score(y, predictions)\<close>.
\<close>

definition score :: "arith \<Rightarrow> estimator \<Rightarrow> matrix \<Rightarrow> vector \<Rightarrow> error + score_value" where
  "score ar est X y =
     (case predict ar est X of
        Inl e \<Rightarrow> Inl e
      | Inr predictions \<Rightarrow> r2_score ar y predictions)"

subsection \<open>\<^verbatim>\<open>get_params\<close> and \<^verbatim>\<open>set_params\<close>\<close>

text \<open>
  A dictionary with string keys is an association list in insertion order.
  \<^verbatim>\<open>get_params\<close> returns \<^verbatim>\<open>{"alpha": self.alpha}\<close>. \<^verbatim>\<open>set_params(self, **params)\<close>
  runs
  \<^verbatim>\<open>
    for k, v in params.items():
        if k == "alpha":
            self.alpha = v
    return self
  \<close>
  and, like \<^verbatim>\<open>fit\<close>, is given with the exception raised, if any, and the estimator after
  the call, which is also the value returned. A mapping with the key \<^verbatim>\<open>"self"\<close> cannot
  be bound to \<^verbatim>\<open>**params\<close>: the call raises \<^verbatim>\<open>TypeError\<close> before the body runs.
\<close>

type_synonym params = "(string \<times> real) list"

definition get_params :: "estimator \<Rightarrow> params" where
  "get_params est = [(''alpha'', alpha est)]"

fun set_params_loop :: "estimator \<Rightarrow> params \<Rightarrow> estimator" where
  "set_params_loop est [] = est"
| "set_params_loop est ((k, v) # ps) =
     set_params_loop (if k = ''alpha'' then est\<lparr>alpha := v\<rparr> else est) ps"

definition set_params :: "estimator \<Rightarrow> params \<Rightarrow> error option \<times> estimator" where
  "set_params est ps =
     (if ''self'' \<in> set (map fst ps) then (Some TypeError, est)
      else (None, set_params_loop est ps))"

subsection \<open>Sequences of calls\<close>

text \<open>
  The estimator after a call of one of its methods. Only \<^verbatim>\<open>fit\<close> and \<^verbatim>\<open>set_params\<close>
  assign to a field of \<^verbatim>\<open>self\<close>; the bodies of \<^verbatim>\<open>predict\<close>, \<^verbatim>\<open>score\<close> and
  \<^verbatim>\<open>get_params\<close> contain no assignment.
\<close>

datatype call =
  Fit matrix vector
| Predict matrix
| Score matrix vector
| GetParams
| SetParams params

fun is_fit :: "call \<Rightarrow> bool" where
  "is_fit (Fit X y) = True"
| "is_fit c = False"

fun exec :: "estimator \<Rightarrow> call \<Rightarrow> estimator" where
  "exec est (Fit X y) = snd (fit est X y)"
| "exec est (Predict X) = est"
| "exec est (Score X y) = est"
| "exec est GetParams = est"
| "exec est (SetParams ps) = snd (set_params est ps)"

fun run :: "estimator \<Rightarrow> call list \<Rightarrow> estimator" where
  "run est [] = est"
| "run est (c # cs) = run (exec est c) cs"

subsection \<open>\<^verbatim>\<open>fit\<close> on arrays held in a store\<close>

text \<open>
  To see which arrays \<^verbatim>\<open>fit\<close> writes to, the same body is given once more with the
  arrays in a store: an address is an index into the list of two-dimensional arrays or
  into the list of one-dimensional arrays, a call that creates an array (\<^verbatim>\<open>X.copy()\<close>,
  \<^verbatim>\<open>np.ones\<close>, \<^verbatim>\<open>np.hstack\<close>, \<^verbatim>\<open>np.identity\<close>) allocates a new address, and the
  item assignment \<^verbatim>\<open>I[0, 0] = 0\<close> updates the array at the address of \<^verbatim>\<open>I\<close> in place.
  The last line of the body only reads \<^verbatim>\<open>X_\<close>, \<^verbatim>\<open>I\<close> and \<^verbatim>\<open>y\<close>.
\<close>

record store =
  arrays2 :: "matrix list"
  arrays1 :: "vector list"

definition alloc2 :: "store \<Rightarrow> matrix \<Rightarrow> nat \<times> store" where
  "alloc2 s A = (length (arrays2 s), s\<lparr>arrays2 := arrays2 s @ [A]\<rparr>)"

definition fit_store :: "estimator \<Rightarrow> nat \<Rightarrow> nat \<Rightarrow> store \<Rightarrow> error option \<times> estimator \<times> store" where
  "fit_store est aX ay s =
     (let (c, s1) = alloc2 s (arrays2 s ! aX);
          (o1, s2) = alloc2 s1 (ones (nrows (arrays2 s1 ! c)) 1);
          (h, s3) = alloc2 s2 (hstack (arrays2 s2 ! o1) (arrays2 s2 ! c));
          (i, s4) = alloc2 s3 (identity (ncols (arrays2 s3 ! h)));
          s5 = s4\<lparr>arrays2 := (arrays2 s4)[i := set_item (arrays2 s4 ! i) 0 0 0]\<rparr>
      in case solve_weights (alpha est) (arrays2 s5 ! h) (arrays2 s5 ! i) (arrays1 s5 ! ay) of
           Inl e \<Rightarrow> (Some e, est, s5)
         | Inr w \<Rightarrow>
             (case w of
                [] \<Rightarrow> (Some IndexError, est, s5)
              | w0 # ws \<Rightarrow> (None, est\<lparr>intercept := Some w0, coef := Some ws\<rparr>, s5)))"

subsection \<open>Notions used in the statements and proofs\<close>

text \<open>The penalty matrix and the matrix that \<^verbatim>\<open>fit\<close> passes to the inversion, as
  built from \<^verbatim>\<open>alpha\<close> and \<^verbatim>\<open>X\<close>; the row swap of an elimination step.\<close>

definition penalty :: "real \<Rightarrow> nat \<Rightarrow> matrix" where
  "penalty a m = scal_mat a (set_item (identity m) 0 0 0)"

definition normal_matrix :: "real \<Rightarrow> matrix \<Rightarrow> matrix" where
  "normal_matrix a X =
     mat_add (mat_mul (transpose_m (augment X)) (augment X)) (penalty a (ncols (augment X)))"

definition swap_rows :: "nat \<Rightarrow> nat \<Rightarrow> matrix \<Rightarrow> matrix" where
  "swap_rows k p A = A[k := A ! p, p := A ! k]"

section \<open>Shapes\<close>

subsection \<open>The inversion keeps the shape\<close>

lemma find_pivot_Some:
  "find_pivot k A = Some p \<Longrightarrow> k \<le> p \<and> p < length A \<and> A ! p ! k \<noteq> 0"
  by (auto simp: find_pivot_def find_Some_iff)

lemma swap_rows_nth:
  "k < length A \<Longrightarrow> p < length A \<Longrightarrow> i < length A \<Longrightarrow>
   swap_rows k p A ! i = (if i = p then A ! k else if i = k then A ! p else A ! i)"
  by (simp add: swap_rows_def nth_list_update)

lemma gj_step_SomeD:
  assumes "gj_step k A = Some A'"
  shows "\<exists>p. k \<le> p \<and> p < length A \<and> A ! p ! k \<noteq> 0 \<and> length A' = length A \<and>
    A' ! k = map (\<lambda>x. x / (A ! p ! k)) (A ! p) \<and>
    (\<forall>i<length A. i \<noteq> k \<longrightarrow>
       A' ! i = axpy (- (swap_rows k p A ! i ! k)) (A' ! k) (swap_rows k p A ! i))"
proof -
  from assms obtain p where p: "find_pivot k A = Some p"
    by (auto simp: gj_step_def split: option.splits)
  from find_pivot_Some[OF p] have kp: "k \<le> p" "p < length A" "A ! p ! k \<noteq> 0" by auto
  then have k: "k < length A" by simp
  have A1k: "swap_rows k p A ! k = A ! p"
    using k kp by (simp add: swap_rows_def nth_list_update)
  from assms p have "A' = map (\<lambda>i. if i = k
       then map (\<lambda>x. x / (swap_rows k p A ! k ! k)) (swap_rows k p A ! k)
       else axpy (- (swap_rows k p A ! i ! k))
              (map (\<lambda>x. x / (swap_rows k p A ! k ! k)) (swap_rows k p A ! k)) (swap_rows k p A ! i))
                    [0..<length A]"
    unfolding swap_rows_def by (auto simp: gj_step_def Let_def)
  then have A': "A' = map (\<lambda>i. if i = k then map (\<lambda>x. x / (A ! p ! k)) (A ! p)
       else axpy (- (swap_rows k p A ! i ! k)) (map (\<lambda>x. x / (A ! p ! k)) (A ! p)) (swap_rows k p A ! i))
                    [0..<length A]"
    by (simp only: A1k)
  have 1: "length A' = length A" by (simp add: A')
  have 2: "A' ! k = map (\<lambda>x. x / (A ! p ! k)) (A ! p)" using k by (simp add: A')
  have 3: "\<forall>i<length A. i \<noteq> k \<longrightarrow>
       A' ! i = axpy (- (swap_rows k p A ! i ! k)) (A' ! k) (swap_rows k p A ! i)"
    using k by (simp add: A')
  show ?thesis using kp 1 2 3 by blast
qed

lemma gj_step_is_mat:
  assumes "is_mat n m A" "gj_step k A = Some A'"
  shows "is_mat n m A'"
proof -
  from gj_step_SomeD[OF assms(2)] obtain p where p: "k \<le> p" "p < length A" "length A' = length A"
    "A' ! k = map (\<lambda>x. x / (A ! p ! k)) (A ! p)"
    "\<forall>i<length A. i \<noteq> k \<longrightarrow>
       A' ! i = axpy (- (swap_rows k p A ! i ! k)) (A' ! k) (swap_rows k p A ! i)"
    by blast
  have len: "length A = n" and rows: "\<And>i. i < n \<Longrightarrow> length (A ! i) = m"
    using assms(1) by (auto simp: is_mat_def)
  have k: "k < n" using p len by simp
  have rk: "length (A' ! k) = m" using p rows len by simp
  have "length (A' ! i) = m" if "i < n" for i
  proof (cases "i = k")
    case True then show ?thesis using rk by simp
  next
    case False
    have "length (swap_rows k p A ! i) = m"
      using that k p len rows by (simp add: swap_rows_nth)
    then show ?thesis using p(5)[rule_format, of i] that False len rk by (simp add: axpy_def)
  qed
  then show ?thesis using p(3) len by (simp add: is_mat_def all_set_conv_all_nth)
qed

lemma gauss_jordan_is_mat:
  "gauss_jordan d k A = Some R \<Longrightarrow> is_mat n m A \<Longrightarrow> is_mat n m R"
proof (induction d arbitrary: k A)
  case 0
  then show ?case by simp
next
  case (Suc d)
  from Suc.prems(1) obtain A' where s: "gj_step k A = Some A'"
    and g: "gauss_jordan d (Suc k) A' = Some R"
    by (auto split: option.splits)
  from Suc.IH[OF g gj_step_is_mat[OF Suc.prems(2) s]] show ?case .
qed

lemma is_mat_nth: "is_mat n m A \<Longrightarrow> i < n \<Longrightarrow> length (A ! i) = m"
  by (simp add: is_mat_def)

lemma is_mat_length: "is_mat n m A \<Longrightarrow> length A = n"
  by (simp add: is_mat_def)

lemma is_mat_identity: "is_mat n n (identity n)"
  by (auto simp: is_mat_def identity_def)

lemma is_mat_hstack:
  "is_mat n a A \<Longrightarrow> is_mat n b B \<Longrightarrow> is_mat n (a + b) (hstack A B)"
  by (auto simp: is_mat_def hstack_def set_zip)

lemma linalg_inv_shape:
  assumes "linalg_inv M = Inr B"
  shows "is_mat (length M) (length M) B"
proof -
  from assms have M: "is_mat (length M) (length M) M"
    by (auto simp: linalg_inv_def Let_def split: if_splits)
  from assms M obtain R
    where g: "gauss_jordan (length M) 0 (hstack M (identity (length M))) = Some R"
      and B: "B = map (drop (length M)) R"
    by (auto simp: linalg_inv_def Let_def split: if_splits option.splits)
  have "is_mat (length M) (length M + length M) R"
    using gauss_jordan_is_mat[OF g is_mat_hstack[OF M is_mat_identity]] .
  then show ?thesis by (auto simp: B is_mat_def)
qed


lemma length_mat_vec: "length (mat_vec A v) = length A"
  by (simp add: mat_vec_def)

lemma ncols_is_mat: "is_mat n m A \<Longrightarrow> 0 < n \<Longrightarrow> ncols A = m"
  by (cases A) (auto simp: is_mat_def ncols_def)

lemma length_transpose_m: "is_mat n m A \<Longrightarrow> 0 < n \<Longrightarrow> length (transpose_m A) = m"
  by (simp add: transpose_m_def ncols_is_mat)

lemma is_mat_transpose_m: "is_mat n m A \<Longrightarrow> 0 < n \<Longrightarrow> is_mat m n (transpose_m A)"
  by (auto simp: is_mat_def transpose_m_def ncols_is_mat[unfolded is_mat_def])

lemma is_mat_mat_mul:
  "is_mat a b A \<Longrightarrow> is_mat b c B \<Longrightarrow> 0 < b \<Longrightarrow> is_mat a c (mat_mul A B)"
  by (simp add: is_mat_def mat_mul_def length_transpose_m[unfolded is_mat_def])

subsection \<open>The matrices built by \<^verbatim>\<open>fit\<close>\<close>

lemma is_mat_augment: "is_mat n p X \<Longrightarrow> is_mat n (Suc p) (augment X)"
  by (auto simp: is_mat_def augment_def hstack_def ones_def nrows_def set_zip)

lemma is_mat_set_item:
  assumes "is_mat n m A"
  shows "is_mat n m (set_item A i j v)"
proof (cases "i < length A")
  case True
  then have "length ((A ! i)[j := v]) = m" using assms by (simp add: is_mat_def)
  then show ?thesis
    using assms set_update_subset_insert[of A i "(A ! i)[j := v]"]
    by (auto simp: is_mat_def set_item_def)
next
  case False
  then show ?thesis using assms by (simp add: set_item_def list_update_beyond)
qed

lemma is_mat_scal_mat: "is_mat n m A \<Longrightarrow> is_mat n m (scal_mat c A)"
  by (auto simp: is_mat_def scal_mat_def)

lemma is_mat_mat_add: "is_mat n m A \<Longrightarrow> is_mat n m B \<Longrightarrow> is_mat n m (mat_add A B)"
  by (auto simp: is_mat_def mat_add_def set_zip)

lemma is_mat_penalty: "is_mat m m (penalty a m)"
  by (simp add: penalty_def is_mat_scal_mat is_mat_set_item is_mat_identity)

lemma is_mat_normal_matrix:
  assumes X: "is_mat n p X" and n: "0 < n"
  shows "is_mat (Suc p) (Suc p) (normal_matrix a X)"
proof -
  have Xa: "is_mat n (Suc p) (augment X)" using is_mat_augment[OF X] .
  have Xt: "is_mat (Suc p) n (transpose_m (augment X))" using is_mat_transpose_m[OF Xa n] .
  have "ncols (augment X) = Suc p" using ncols_is_mat[OF Xa n] .
  then show ?thesis
    unfolding normal_matrix_def
    using is_mat_mat_add[OF is_mat_mat_mul[OF Xt Xa n] is_mat_penalty] by simp
qed

lemma fit_weights_unfold:
  assumes X: "is_mat n p X" and n: "0 < n"
  shows "fit_weights a X y =
    (case linalg_inv (normal_matrix a X) of
       Inl e \<Rightarrow> Inl e
     | Inr B \<Rightarrow> if n \<noteq> length y then Inl ValueError
                else Inr (mat_vec (mat_mul B (transpose_m (augment X))) y))"
proof -
  have Xa: "is_mat n (Suc p) (augment X)" using is_mat_augment[OF X] .
  have Xt: "is_mat (Suc p) n (transpose_m (augment X))" using is_mat_transpose_m[OF Xa n] .
  have c1: "ncols (transpose_m (augment X)) = nrows (augment X)"
    using ncols_is_mat[OF Xt] is_mat_length[OF Xa] by (simp add: nrows_def)
  have M: "is_mat (Suc p) (Suc p) (normal_matrix a X)" using is_mat_normal_matrix[OF X n] .
  have step1: "fit_weights a X y =
    (case linalg_inv (normal_matrix a X) of
       Inl e \<Rightarrow> Inl e
     | Inr B \<Rightarrow> (case matmul B (transpose_m (augment X)) of
                  Inl e \<Rightarrow> Inl e
                | Inr C \<Rightarrow> matmul_vec C y))"
    by (simp add: fit_weights_def solve_weights_def Let_def matmul_def c1 normal_matrix_def
        penalty_def)
  show ?thesis
  proof (cases "linalg_inv (normal_matrix a X)")
    case (Inl e)
    then show ?thesis using step1 by simp
  next
    case (Inr B)
    from linalg_inv_shape[OF Inr] is_mat_length[OF M]
    have B: "is_mat (Suc p) (Suc p) B" by simp
    have c2: "ncols B = nrows (transpose_m (augment X))"
      using ncols_is_mat[OF B] is_mat_length[OF Xt] by (simp add: nrows_def)
    have C: "is_mat (Suc p) n (mat_mul B (transpose_m (augment X)))"
      using is_mat_mat_mul[OF B Xt] by simp
    have c3: "ncols (mat_mul B (transpose_m (augment X))) = n"
      using ncols_is_mat[OF C] by simp
    show ?thesis using step1 Inr by (simp add: matmul_def c2 matmul_vec_def c3)
  qed
qed

lemma fit_unfold:
  assumes X: "is_mat n p X" and n: "0 < n"
  shows "fit est X y =
    (case linalg_inv (normal_matrix (alpha est) X) of
       Inl e \<Rightarrow> (Some e, est)
     | Inr B \<Rightarrow>
         if n \<noteq> length y then (Some ValueError, est)
         else (case mat_vec (mat_mul B (transpose_m (augment X))) y of
                 [] \<Rightarrow> (Some IndexError, est)
               | w0 # ws \<Rightarrow> (None, est\<lparr>intercept := Some w0, coef := Some ws\<rparr>)))"
  by (simp add: fit_def fit_weights_unfold[OF X n] split: sum.splits)

lemma penalty_nth:
  assumes "i < m" "j < m"
  shows "penalty a m ! i ! j = (if i = j \<and> 0 < i then a else 0)"
proof -
  have "set_item (identity m) 0 0 0 ! i ! j = (if i = j \<and> 0 < i then 1 else 0)"
    using assms by (auto simp: set_item_def identity_def nth_list_update)
  moreover have "length (set_item (identity m) 0 0 0) = m"
    and "length (set_item (identity m) 0 0 0 ! i) = m"
    using is_mat_set_item[OF is_mat_identity, of m 0 0 0] assms
    by (simp_all add: is_mat_length is_mat_nth)
  ultimately show ?thesis using assms by (simp add: penalty_def scal_mat_def)
qed

subsection \<open>Auxiliary facts about the methods\<close>

lemma set_params_loop_coef: "coef (set_params_loop est ps) = coef est"
  by (induction est ps rule: set_params_loop.induct) auto

lemma set_params_loop_filter:
  "set_params_loop est ps = set_params_loop est (filter (\<lambda>kv. fst kv = ''alpha'') ps)"
  by (induction est ps rule: set_params_loop.induct) auto

lemma fit_store_eq:
  "fit_store est aX ay s =
     (let X = arrays2 s ! aX;
          s5 = s\<lparr>arrays2 := arrays2 s @
                 [X, ones (nrows X) 1, augment X, set_item (identity (ncols (augment X))) 0 0 0]\<rparr>
      in (fst (fit est X (arrays1 s ! ay)), snd (fit est X (arrays1 s ! ay)), s5))"
  by (simp add: fit_store_def alloc2_def Let_def nth_append fit_def fit_weights_def augment_def
      list_update_append
      split: sum.splits list.splits)

lemma exec_coef: "\<not> is_fit c \<Longrightarrow> coef (exec est c) = coef est"
  by (cases c) (simp_all add: set_params_def set_params_loop_coef)

lemma run_coef: "\<forall>c \<in> set cs. \<not> is_fit c \<Longrightarrow> coef (run est cs) = coef est"
  by (induction cs arbitrary: est) (simp_all add: exec_coef)



section \<open>Properties of the estimator\<close>




text \<open>
  C4, as stated, fails for an array without elements: on a freshly constructed estimator
  \<^verbatim>\<open>predict\<close> then multiplies nothing by \<^verbatim>\<open>None\<close> and returns an array without
  elements, and \<^verbatim>\<open>score\<close> fails in \<^verbatim>\<open>r2_score\<close> with \<^verbatim>\<open>ValueError\<close>, not with
  the \<^verbatim>\<open>TypeError\<close> of an unfitted estimator.
\<close>

theorem not_fitted_empty_counterexample:
  "predict exact_arith (init 1) [] = Inr [] \<and>
   score exact_arith (init 1) [] [] = Inl ValueError \<and>
   score exact_arith (init 1) [] [] \<noteq> Inl TypeError"
  by (simp add: predict_def score_def r2_score_def init_def)

text \<open>
  C4, amended. A freshly constructed estimator has no coefficients; calls other than
  \<^verbatim>\<open>fit\<close>, in any number, leave an estimator without coefficients without them; a call of
  \<^verbatim>\<open>fit\<close> that raises leaves the estimator as it was; and on an estimator without coefficients
  \<^verbatim>\<open>predict\<close> and \<^verbatim>\<open>score\<close> raise \<^verbatim>\<open>TypeError\<close> (the specification's
  \<open>NotFitted\<close>) for every \<open>X\<close> with at least one row and one column and every \<open>y\<close>,
  whatever the arithmetic.
\<close>

theorem not_fitted_raises:
  "coef (init a) = None \<and>
   (\<forall>cs. (\<forall>c \<in> set cs. \<not> is_fit c) \<and> coef est = None \<longrightarrow> coef (run est cs) = None) \<and>
   (\<forall>X' y' e. fst (fit est X' y') = Some e \<longrightarrow> snd (fit est X' y') = est) \<and>
   (coef est = None \<and> is_mat n p X \<and> 1 \<le> n \<and> 1 \<le> p \<longrightarrow>
      predict ar est X = Inl TypeError \<and> score ar est X y = Inl TypeError)"
proof -
  have a: "coef (init a) = None" by (simp add: init_def)
  have b: "\<forall>cs. (\<forall>c \<in> set cs. \<not> is_fit c) \<and> coef est = None \<longrightarrow> coef (run est cs) = None"
    by (simp add: run_coef)
  have c: "\<forall>X' y' e. fst (fit est X' y') = Some e \<longrightarrow> snd (fit est X' y') = est"
    by (auto simp: fit_def split: sum.splits list.splits)
  have d: "predict ar est X = Inl TypeError \<and> score ar est X y = Inl TypeError"
    if h1: "coef est = None" and h2: "is_mat n p X" and h3: "1 \<le> n" and h4: "1 \<le> p"
  proof -
    obtain r rs where X: "X = r # rs" using h2 h3 by (cases X) (auto simp: is_mat_def)
    then have "length r = p" using h2 by (simp add: is_mat_def)
    then have "concat X \<noteq> []" using X h4 by auto
    then show ?thesis using h1 by (simp add: predict_def score_def)
  qed
  show ?thesis using a b c d by blast
qed

theorem not_fitted_raises_witness:
  "predict exact_arith (exec (exec (init 1) (SetParams [(''alpha'', 2)])) (Fit [[1], [2]] [1, 2, 3]))
      [[1], [2]] = Inl TypeError \<and>
   score exact_arith (exec (exec (init 1) (SetParams [(''alpha'', 2)])) (Fit [[1], [2]] [1, 2, 3]))
      [[1], [2]] [1, 2] = Inl TypeError"
proof -
  let ?e1 = "exec (init 1) (SetParams [(''alpha'', 2)])"
  let ?e2 = "exec ?e1 (Fit [[1], [2]] [1, 2, 3])"
  have f: "fst (fit ?e1 [[1], [2]] [1, 2, 3]) = Some ValueError" by code_simp
  have i: "coef (init 1) = None"
    and s: "\<forall>cs. (\<forall>c \<in> set cs. \<not> is_fit c) \<and> coef (init 1) = None
               \<longrightarrow> coef (run (init 1) cs) = None"
    using not_fitted_raises[of 1 "init 1" 2 1 "[[1], [2]]" exact_arith "[1, 2]"] by blast+
  have c1: "coef ?e1 = None"
    using s[rule_format, of "[SetParams [(''alpha'', 2)]]"] i by simp
  have u: "\<forall>X' y' e. fst (fit ?e1 X' y') = Some e \<longrightarrow> snd (fit ?e1 X' y') = ?e1"
    and t: "coef ?e1 = None \<and> is_mat 2 1 [[1], [2]] \<and> (1::nat) \<le> 2 \<and> (1::nat) \<le> 1 \<longrightarrow>
      predict exact_arith ?e1 [[1], [2]] = Inl TypeError \<and>
      score exact_arith ?e1 [[1], [2]] [1, 2] = Inl TypeError"
    using not_fitted_raises[of 1 ?e1 2 1 "[[1], [2]]" exact_arith "[1, 2]"] by blast+
  have e2: "?e2 = ?e1" using u[rule_format, OF f] by simp
  have X: "is_mat 2 1 [[1], [2]]" by (simp add: is_mat_def)
  show ?thesis unfolding e2 using t c1 X by simp
qed

text \<open>
  C5, as stated, fails: \<^verbatim>\<open>set_params\<close> has no branch for a key other than
  \<^verbatim>\<open>"alpha"\<close>. Called with \<^verbatim>\<open>beta=2\<close> it raises nothing and returns the estimator
  unchanged.
\<close>

theorem set_params_unknown_key_counterexample:
  "set_params (init 1) [(''beta'', 2)] = (None, init 1)"
  by (simp add: set_params_def)

text \<open>
  C5, amended. A mapping with the key \<^verbatim>\<open>"self"\<close> makes the call raise \<^verbatim>\<open>TypeError\<close>
  and leaves the estimator as it was. For every other mapping \<^verbatim>\<open>set_params\<close> raises
  nothing: keys other than \<^verbatim>\<open>"alpha"\<close> are ignored (the call has the effect of the
  call with those keys removed, and leaves the estimator as it was when \<^verbatim>\<open>"alpha"\<close> is
  not among the keys). Given only the key \<^verbatim>\<open>"alpha"\<close> it sets \<^verbatim>\<open>alpha\<close> to the given
  value and returns the estimator.
\<close>

theorem set_params_ignores_other_keys:
  "(''self'' \<in> fst ` set ps \<longrightarrow> set_params est ps = (Some TypeError, est)) \<and>
   (''self'' \<notin> fst ` set ps \<longrightarrow>
      fst (set_params est ps) = None \<and>
      snd (set_params est ps) = snd (set_params est (filter (\<lambda>kv. fst kv = ''alpha'') ps)) \<and>
      (''alpha'' \<notin> fst ` set ps \<longrightarrow> snd (set_params est ps) = est)) \<and>
   set_params est [(''alpha'', v)] = (None, est\<lparr>alpha := v\<rparr>)"
proof -
  have f: "filter (\<lambda>kv. fst kv = ''alpha'') ps = []" if "''alpha'' \<notin> fst ` set ps"
    using that by (force simp: filter_empty_conv)
  have g: "''self'' \<notin> fst ` set (filter (\<lambda>kv. fst kv = ''alpha'') ps)" by auto
  have "''alpha'' \<notin> fst ` set ps \<longrightarrow> set_params_loop est ps = est"
    using set_params_loop_filter[of est ps] f by auto
  then show ?thesis
    using set_params_loop_filter[of est ps] g by (simp add: set_params_def)
qed

theorem set_params_ignores_other_keys_witness:
  "set_params (init 1) [(''beta'', 2), (''alpha'', 5), (''gamma'', 3)]
     = (None, (init 1)\<lparr>alpha := 5\<rparr>) \<and>
   set_params (init 1) [(''beta'', 2)] = (None, init 1) \<and>
   set_params (init 1) [(''self'', 2)] = (Some TypeError, init 1)"
proof -
  have a: "''alpha'' \<notin> fst ` set [(''beta'', 2 :: real)]"
    and b: "''self'' \<notin> fst ` set [(''beta'', 2 :: real)]"
    and c: "''self'' \<notin> fst ` set [(''beta'', 2 :: real), (''alpha'', 5), (''gamma'', 3)]"
    and d: "''self'' \<in> fst ` set [(''self'', 2 :: real)]"
    by simp_all
  show ?thesis
    using set_params_ignores_other_keys[of "[(''beta'', 2), (''alpha'', 5), (''gamma'', 3)]" "init 1" 5]
      set_params_ignores_other_keys[of "[(''beta'', 2)]" "init 1" 5]
      set_params_ignores_other_keys[of "[(''self'', 2)]" "init 1" 5] a b c d
    by (simp add: prod_eq_iff set_params_def)
qed

text \<open>
  C6. Every call of \<^verbatim>\<open>fit\<close> either returns normally with both \<^verbatim>\<open>intercept_\<close> and
  \<^verbatim>\<open>coef_\<close> assigned, or raises and leaves the estimator, and with it the intercept and
  coefficients of an earlier fit, exactly as it was.
\<close>

theorem fit_no_partial_failure:
  "(\<exists>w0 ws. fit est X y = (None, est\<lparr>intercept := Some w0, coef := Some ws\<rparr>)) \<or>
   (\<exists>e. fit est X y = (Some e, est))"
  by (auto simp: fit_def split: sum.splits list.splits)

theorem fit_no_partial_failure_witness:
  "((\<exists>w0 ws. fit \<lparr>alpha = 0, coef = Some [2], intercept = Some 0\<rparr> [[1], [1]] [1, 2]
        = (None, \<lparr>alpha = 0, coef = Some [2], intercept = Some 0\<rparr>\<lparr>intercept := Some w0, coef := Some ws\<rparr>)) \<or>
    (\<exists>e. fit \<lparr>alpha = 0, coef = Some [2], intercept = Some 0\<rparr> [[1], [1]] [1, 2]
        = (Some e, \<lparr>alpha = 0, coef = Some [2], intercept = Some 0\<rparr>))) \<and>
   fit \<lparr>alpha = 0, coef = Some [2], intercept = Some 0\<rparr> [[1], [1]] [1, 2]
        = (Some LinAlgError, \<lparr>alpha = 0, coef = Some [2], intercept = Some 0\<rparr>)"
proof -
  have "fit \<lparr>alpha = 0, coef = Some [2], intercept = Some 0\<rparr> [[1], [1]] [1, 2]
        = (Some LinAlgError, \<lparr>alpha = 0, coef = Some [2], intercept = Some 0\<rparr>)"
    by code_simp
  then show ?thesis
    using fit_no_partial_failure[of "\<lparr>alpha = 0, coef = Some [2], intercept = Some 0\<rparr>" "[[1], [1]]" "[1, 2]"]
    by simp
qed

text \<open>
  C7. With the arrays in a store, a call of \<^verbatim>\<open>fit\<close> on the addresses of \<open>X\<close> and \<open>y\<close> leaves
  the arrays at these two addresses, every other array that existed before the call, and
  \<^verbatim>\<open>alpha\<close> unchanged: it writes only to arrays it has allocated itself, the augmented
  copy among them, and to \<^verbatim>\<open>intercept_\<close> and \<^verbatim>\<open>coef_\<close>. The exception and the
  estimator it produces are those of \<open>fit\<close> on the values of the two arrays.
\<close>

theorem fit_store_frame:
  assumes "aX < length (arrays2 s)" "ay < length (arrays1 s)"
    and "fit_store est aX ay s = (r, est', s')"
  shows "arrays2 s' ! aX = arrays2 s ! aX \<and> arrays1 s' ! ay = arrays1 s ! ay \<and>
         alpha est' = alpha est \<and>
         (\<forall>a<length (arrays2 s). arrays2 s' ! a = arrays2 s ! a) \<and> arrays1 s' = arrays1 s \<and>
         (r, est') = fit est (arrays2 s ! aX) (arrays1 s ! ay)"
proof -
  have a: "alpha (snd (fit est X y)) = alpha est" for X y
    by (auto simp: fit_def split: sum.splits list.splits)
  show ?thesis
    using assms a by (auto simp: fit_store_eq Let_def nth_append)
qed

theorem fit_store_frame_witness:
  "fit_store (init 0) 0 0 \<lparr>arrays2 = [[[1], [2], [3]]], arrays1 = [[2, 4, 6]]\<rparr> =
     (None, \<lparr>alpha = 0, coef = Some [2], intercept = Some 0\<rparr>,
      \<lparr>arrays2 = [[[1], [2], [3]], [[1], [2], [3]], [[1], [1], [1]],
                  [[1, 1], [1, 2], [1, 3]], [[0, 0], [0, 1]]],
       arrays1 = [[2, 4, 6]]\<rparr>) \<and>
   arrays2 (snd (snd (fit_store (init 0) 0 0 \<lparr>arrays2 = [[[1], [2], [3]]], arrays1 = [[2, 4, 6]]\<rparr>))) ! 0
     = [[1], [2], [3]]"
proof -
  have e: "fit_store (init 0) 0 0 \<lparr>arrays2 = [[[1], [2], [3]]], arrays1 = [[2, 4, 6]]\<rparr> =
     (None, \<lparr>alpha = 0, coef = Some [2], intercept = Some 0\<rparr>,
      \<lparr>arrays2 = [[[1], [2], [3]], [[1], [2], [3]], [[1], [1], [1]],
                  [[1, 1], [1, 2], [1, 3]], [[0, 0], [0, 1]]],
       arrays1 = [[2, 4, 6]]\<rparr>)"
    by code_simp
  from fit_store_frame[OF _ _ e] show ?thesis using e by simp
qed




text \<open>
  C9. After \<^verbatim>\<open>set_params(alpha=v)\<close>, \<^verbatim>\<open>get_params()\<close> returns \<^verbatim>\<open>{"alpha": v}\<close>, the
  field \<^verbatim>\<open>alpha\<close> is \<open>v\<close>, and a following \<^verbatim>\<open>fit\<close> on an \<open>n \<times> p\<close> matrix passes to the
  inversion the Gram matrix of the augmented \<open>X\<close> plus the penalty matrix built from \<open>v\<close>:
  the \<open>(p + 1) \<times> (p + 1)\<close> matrix with \<open>v\<close> on the diagonal except at position \<open>(0, 0)\<close>, and
  zero elsewhere.
\<close>

theorem params_round_trip:
  assumes X: "is_mat n p X" and n: "1 \<le> n" and p: "1 \<le> p"
    and e: "est' = snd (set_params est [(''alpha'', v)])"
  shows "get_params est' = [(''alpha'', v)] \<and> alpha est' = v \<and>
    fit est' X y =
      (case linalg_inv (mat_add (mat_mul (transpose_m (augment X)) (augment X)) (penalty v (p + 1))) of
         Inl e \<Rightarrow> (Some e, est')
       | Inr B \<Rightarrow>
           if n \<noteq> length y then (Some ValueError, est')
           else (case mat_vec (mat_mul B (transpose_m (augment X))) y of
                   [] \<Rightarrow> (Some IndexError, est')
                 | w0 # ws \<Rightarrow> (None, est'\<lparr>intercept := Some w0, coef := Some ws\<rparr>))) \<and>
    is_mat (p + 1) (p + 1) (penalty v (p + 1)) \<and>
    (\<forall>i<p + 1. \<forall>j<p + 1. penalty v (p + 1) ! i ! j = (if i = j \<and> 0 < i then v else 0))"
proof -
  have n0: "0 < n" using n by simp
  have a: "alpha est' = v" using e by (simp add: set_params_def)
  have "ncols (augment X) = Suc p" using ncols_is_mat[OF is_mat_augment[OF X] n0] .
  then have "normal_matrix v X =
      mat_add (mat_mul (transpose_m (augment X)) (augment X)) (penalty v (p + 1))"
    by (simp add: normal_matrix_def)
  then show ?thesis
    using fit_unfold[OF X n0, of est' y] a is_mat_penalty[of "p + 1" v] penalty_nth[of _ "p + 1" _ v]
    by (simp add: get_params_def)
qed

theorem params_round_trip_witness:
  "get_params (snd (set_params (init 1) [(''alpha'', 5)])) = [(''alpha'', 5)] \<and>
   fit (snd (set_params (init 1) [(''alpha'', 5)])) [[1], [2], [3]] [2, 4, 6]
     = (None, \<lparr>alpha = 5, coef = Some [4 / 7], intercept = Some (20 / 7)\<rparr>) \<and>
   penalty 5 2 = [[0, 0], [0, 5]] \<and>
   get_params (snd (set_params (init 1) [(''alpha'', 0)])) = [(''alpha'', 0)] \<and>
   fit (snd (set_params (init 1) [(''alpha'', 0)])) [[1], [2], [3]] [2, 4, 6]
     = (None, \<lparr>alpha = 0, coef = Some [2], intercept = Some 0\<rparr>) \<and>
   penalty 0 2 = [[0, 0], [0, 0]]"
proof -
  have X: "is_mat 3 1 [[1], [2], [3]]" by (simp add: is_mat_def)
  have f5: "fit (snd (set_params (init 1) [(''alpha'', 5)])) [[1], [2], [3]] [2, 4, 6]
     = (None, \<lparr>alpha = 5, coef = Some [4 / 7], intercept = Some (20 / 7)\<rparr>)"
    by code_simp
  have f0: "fit (snd (set_params (init 1) [(''alpha'', 0)])) [[1], [2], [3]] [2, 4, 6]
     = (None, \<lparr>alpha = 0, coef = Some [2], intercept = Some 0\<rparr>)"
    by code_simp
  have p5: "penalty 5 2 = [[0, 0], [0, 5]]" and p0: "penalty 0 2 = [[0, 0], [0, 0]]"
    by code_simp+
  from params_round_trip[OF X _ _ refl, of "init 1" 5 "[2, 4, 6]"]
    params_round_trip[OF X _ _ refl, of "init 1" 0 "[2, 4, 6]"]
  show ?thesis using f5 f0 p5 p0 by simp
qed

text \<open>
  C10. After a call of \<^verbatim>\<open>fit\<close> on an \<open>n \<times> p\<close> matrix that returned normally, and after any
  further calls of \<^verbatim>\<open>predict\<close>, \<^verbatim>\<open>score\<close>, \<^verbatim>\<open>get_params\<close> and \<^verbatim>\<open>set_params\<close>,
  the coefficient vector has length \<open>p\<close>.
\<close>

theorem coef_length_invariant:
  assumes X: "is_mat n p X" and n: "1 \<le> n" and p: "1 \<le> p"
    and f: "fit est X y = (None, est')"
    and cs: "\<forall>c \<in> set cs. \<not> is_fit c"
  shows "\<exists>c. coef (run est' cs) = Some c \<and> length c = p"
proof -
  have n0: "0 < n" using n by simp
  let ?M = "normal_matrix (alpha est) X"
  from f fit_unfold[OF X n0, of est y] obtain B where B: "linalg_inv ?M = Inr B"
    by (cases "linalg_inv ?M") auto
  have "length ?M = Suc p" using is_mat_length[OF is_mat_normal_matrix[OF X n0]] .
  with linalg_inv_shape[OF B] have "is_mat (Suc p) (Suc p) B" by simp
  then have "length B = Suc p" by (rule is_mat_length)
  then have l: "length (mat_vec (mat_mul B (transpose_m (augment X))) y) = Suc p"
    by (simp add: length_mat_vec mat_mul_def)
  from f fit_unfold[OF X n0, of est y] B l
  have "\<exists>c. coef est' = Some c \<and> length c = p"
    by (auto split: if_splits list.splits)
  then show ?thesis using run_coef[OF cs] by simp
qed

theorem coef_length_invariant_witness:
  "coef (run \<lparr>alpha = 0, coef = Some [2], intercept = Some 0\<rparr>
      [Predict [[1]], SetParams [(''alpha'', 3)], Score [[1], [2]] [1, 2], GetParams]) = Some [2]
   \<and> fit (init 0) [[1], [2], [3]] [2, 4, 6] = (None, \<lparr>alpha = 0, coef = Some [2], intercept = Some 0\<rparr>)"
proof -
  have X: "is_mat 3 1 [[1], [2], [3]]" by (simp add: is_mat_def)
  have f: "fit (init 0) [[1], [2], [3]] [2, 4, 6]
      = (None, \<lparr>alpha = 0, coef = Some [2], intercept = Some 0\<rparr>)" by code_simp
  have cs: "\<forall>c \<in> set [Predict [[1]], SetParams [(''alpha'', 3)], Score [[1], [2]] [1, 2], GetParams].
      \<not> is_fit c" by simp
  from coef_length_invariant[OF X _ _ f cs]
  show ?thesis using f by (simp add: set_params_def)
qed

end
